theory Spec2Isabelle
  imports Complex_Main
begin

section \<open>The manual K-means loop of the clustering notebook\<close>

text \<open>
  The notebook \<^verbatim>\<open>notebooks/Day2_4-Clustering.ipynb\<close> clusters 25 random points by hand:
  \<^verbatim>\<open>
  centroids = (3, 3), (3, 7), (7, 3), (7, 7)                       # cell 9
  distances = cdist(centroids, list(zip(x,y)))                     # cell 13
  labels = distances.argmin(axis=0)                                # cell 15
  new_centroids = [(x[labels==i].mean(), y[labels==i].mean())
                   for i in range(len(centroids))]                 # cell 18
  centroids = new_centroids                                        # cell 21
  iterations = 20
  for _ in range(iterations):
      distances = cdist(centroids, list(zip(x,y)))
      labels = distances.argmin(axis=0)
      centroids = [(x[labels==i].mean(), y[labels==i].mean())
                   for i in range(len(centroids))]
  \<close>
  The arrays \<open>x\<close> and \<open>y\<close> are the two rows of one \<open>reshape(2, 25)\<close> array, so they have
  the same length; the model keeps them as one list of points, \<open>x\<close> being its first
  and \<open>y\<close> its second coordinates.
\<close>

subsection \<open>Data\<close>

text \<open>
  A numpy double is modelled as an exact real number or \<open>NaN\<close>: rounding and overflow
  are abstracted away, the not-a-number value is kept, because the mean of an empty
  slice produces it and both \<open>cdist\<close> and \<open>argmin\<close> treat it specially.
\<close>

datatype npfloat = NaN | Fin real

datatype error = ValueError

type_synonym point = "real \<times> real"

type_synonym centroid = "npfloat \<times> npfloat"

text \<open>The notebook variables the loop assigns to.\<close>

record kstate =
  centroids :: "centroid list"
  labels :: "nat list"

subsection \<open>The library operations\<close>

text \<open>
  \<open>cdist(XA, XB)\<close> with its default metric: the matrix of Euclidean distances, one row
  for each element of \<open>XA\<close>, one column for each element of \<open>XB\<close>. An empty sequence is
  not a 2-dimensional array, and \<open>cdist\<close> raises \<open>ValueError\<close> for it. A coordinate that
  is \<open>NaN\<close> makes the distance \<open>NaN\<close>.
\<close>

fun euclidean :: "centroid \<Rightarrow> point \<Rightarrow> npfloat" where
  "euclidean (Fin a, Fin b) (px, py) = Fin (sqrt ((a - px)\<^sup>2 + (b - py)\<^sup>2))"
| "euclidean (NaN, b) p = NaN"
| "euclidean (a, NaN) p = NaN"

definition cdist :: "centroid list \<Rightarrow> point list \<Rightarrow> error + npfloat list list" where
  "cdist XA XB =
     (if XA = [] \<or> XB = [] then Inl ValueError
      else Inr (map (\<lambda>u. map (\<lambda>v. euclidean u v) XB) XA))"

text \<open>
  \<open>argmin\<close> over one column (its first element \<open>v\<close> and the others \<open>vs\<close>), as
  numpy's loop runs it: the first element is the current minimum \<open>mp\<close>; a later
  element replaces it when \<open>not (element >= mp)\<close>; a \<open>NaN\<close> ends the search at once,
  being minimal by convention. Every comparison with \<open>NaN\<close> is false.
\<close>

fun np_ge :: "npfloat \<Rightarrow> npfloat \<Rightarrow> bool" where
  "np_ge (Fin a) (Fin b) = (b \<le> a)"
| "np_ge NaN b = False"
| "np_ge a NaN = False"

fun argmin_loop :: "npfloat \<Rightarrow> nat \<Rightarrow> nat \<Rightarrow> npfloat list \<Rightarrow> nat" where
  "argmin_loop mp min_ind i [] = min_ind"
| "argmin_loop mp min_ind i (v # vs) =
     (if \<not> np_ge v mp
      then (if v = NaN then i else argmin_loop v i (Suc i) vs)
      else argmin_loop mp min_ind (Suc i) vs)"

definition argmin :: "npfloat \<Rightarrow> npfloat list \<Rightarrow> nat" where
  "argmin v vs = (if v = NaN then 0 else argmin_loop v 0 1 vs)"

text \<open>
  \<open>distances.argmin(axis=0)\<close>: the row index of the minimum of every column, the
  column's first element coming from the first row. On a matrix without rows numpy
  raises \<open>ValueError\<close> (argmin of an empty sequence).
\<close>

definition column :: "npfloat list list \<Rightarrow> nat \<Rightarrow> npfloat list" where
  "column ds i = map (\<lambda>row. row ! i) ds"

definition argmin_axis0 :: "npfloat list list \<Rightarrow> error + nat list" where
  "argmin_axis0 ds =
     (case ds of
        [] \<Rightarrow> Inl ValueError
      | row # rows \<Rightarrow> Inr (map (\<lambda>i. argmin (row ! i) (column rows i)) [0..<length row]))"

text \<open>
  \<open>x[labels==i]\<close> selects the elements of \<open>x\<close> at the positions where \<open>labels\<close> is \<open>i\<close>;
  \<open>.mean()\<close> is their sum divided by their number, and \<open>NaN\<close> (with a warning, no
  exception) when there is none.
\<close>

definition mask_select :: "real list \<Rightarrow> nat list \<Rightarrow> nat \<Rightarrow> real list" where
  "mask_select a ls i = map fst (filter (\<lambda>(v, l). l = i) (zip a ls))"

definition mean :: "real list \<Rightarrow> npfloat" where
  "mean a = (if a = [] then NaN else Fin (sum_list a / real (length a)))"

subsection \<open>The cells\<close>

text \<open>Cells 13, 15 and 18: the first round of the algorithm, one statement per cell.\<close>

definition cell13 :: "centroid list \<Rightarrow> point list \<Rightarrow> error + npfloat list list" where
  "cell13 cs pts = cdist cs pts"

definition cell15 :: "npfloat list list \<Rightarrow> error + nat list" where
  "cell15 distances = argmin_axis0 distances"

definition cell18 :: "centroid list \<Rightarrow> point list \<Rightarrow> nat list \<Rightarrow> centroid list" where
  "cell18 cs pts ls =
     map (\<lambda>i. (mean (mask_select (map fst pts) ls i), mean (mask_select (map snd pts) ls i)))
       [0..<length cs]"

text \<open>The body of the loop of cell 21, and the loop.\<close>

definition loop_body :: "point list \<Rightarrow> kstate \<Rightarrow> error + kstate" where
  "loop_body pts s =
     (case cdist (centroids s) pts of
        Inl e \<Rightarrow> Inl e
      | Inr distances \<Rightarrow>
          (case argmin_axis0 distances of
             Inl e \<Rightarrow> Inl e
           | Inr ls \<Rightarrow>
               Inr (s\<lparr>labels := ls,
                      centroids :=
                        map (\<lambda>i. (mean (mask_select (map fst pts) ls i),
                                  mean (mask_select (map snd pts) ls i)))
                          [0..<length (centroids s)]\<rparr>)))"

fun for_loop :: "nat \<Rightarrow> point list \<Rightarrow> kstate \<Rightarrow> error + kstate" where
  "for_loop 0 pts s = Inr s"
| "for_loop (Suc n) pts s =
     (case loop_body pts s of Inl e \<Rightarrow> Inl e | Inr s' \<Rightarrow> for_loop n pts s')"

definition iterations :: nat where
  "iterations = 20"

definition cell21 :: "point list \<Rightarrow> centroid list \<Rightarrow> nat list \<Rightarrow> error + kstate" where
  "cell21 pts new_centroids ls =
     for_loop iterations pts \<lparr>centroids = new_centroids, labels = ls\<rparr>"

text \<open>
  The history of the loop: the state after each execution of the body, in order. An
  exception ends it.
\<close>

fun kmeans_trace :: "nat \<Rightarrow> point list \<Rightarrow> kstate \<Rightarrow> kstate list" where
  "kmeans_trace 0 pts s = []"
| "kmeans_trace (Suc n) pts s =
     (case loop_body pts s of Inl e \<Rightarrow> [] | Inr s' \<Rightarrow> s' # kmeans_trace n pts s')"

subsection \<open>Notions of the specification\<close>

text \<open>
  The construction contract of the specification: at least one point, between one and
  as many centroids as points, at least one iteration, finite initial centroids. The
  dimensionalities agree by the types.
\<close>

fun is_fin :: "npfloat \<Rightarrow> bool" where
  "is_fin NaN = False"
| "is_fin (Fin a) = True"

definition finite_centroid :: "centroid \<Rightarrow> bool" where
  "finite_centroid c = (is_fin (fst c) \<and> is_fin (snd c))"

definition valid_config :: "nat \<Rightarrow> centroid list \<Rightarrow> point list \<Rightarrow> bool" where
  "valid_config N cs pts =
     (1 \<le> length pts \<and> 1 \<le> length cs \<and> length cs \<le> length pts \<and> 1 \<le> N \<and>
      list_all finite_centroid cs)"

text \<open>
  A device of the proofs about \<open>argmin\<close>, the order in which it searches: \<open>NaN\<close> is
  below everything, real numbers are ordered as usual.
\<close>

fun np_le :: "npfloat \<Rightarrow> npfloat \<Rightarrow> bool" where
  "np_le NaN b = True"
| "np_le (Fin a) NaN = False"
| "np_le (Fin a) (Fin b) = (a \<le> b)"

text \<open>
  The assignment step as a function of the centroids and the points: the label of every
  point.
\<close>

definition assignment :: "centroid list \<Rightarrow> point list \<Rightarrow> nat list" where
  "assignment cs pts =
     map (\<lambda>p. argmin (euclidean (hd cs) p) (map (\<lambda>u. euclidean u p) (tl cs))) pts"

text \<open>
  The squared Euclidean distance, its square root, and the distortion of a state: the
  sum over all points of the squared distance to the centroid the point is assigned to.
  Sums with \<open>NaN\<close> are \<open>NaN\<close>.
\<close>

fun sq_euclidean :: "centroid \<Rightarrow> point \<Rightarrow> npfloat" where
  "sq_euclidean (Fin a, Fin b) (px, py) = Fin ((a - px)\<^sup>2 + (b - py)\<^sup>2)"
| "sq_euclidean (NaN, b) p = NaN"
| "sq_euclidean (a, NaN) p = NaN"

fun np_sqrt :: "npfloat \<Rightarrow> npfloat" where
  "np_sqrt NaN = NaN"
| "np_sqrt (Fin a) = Fin (sqrt a)"

fun np_add :: "npfloat \<Rightarrow> npfloat \<Rightarrow> npfloat" where
  "np_add (Fin a) (Fin b) = Fin (a + b)"
| "np_add NaN b = NaN"
| "np_add a NaN = NaN"

definition distortion :: "point list \<Rightarrow> kstate \<Rightarrow> npfloat" where
  "distortion pts s =
     foldr np_add (map (\<lambda>(p, l). sq_euclidean (centroids s ! l) p) (zip pts (labels s))) (Fin 0)"

text \<open>
  Real-valued readings of a finite value and of a finite centroid, and the squared
  distance between two real points; they carry the arithmetic of the distortion.
\<close>

fun fin_val :: "npfloat \<Rightarrow> real" where
  "fin_val NaN = 0"
| "fin_val (Fin a) = a"

definition sq_dist :: "point \<Rightarrow> point \<Rightarrow> real" where
  "sq_dist m p = (fst m - fst p)\<^sup>2 + (snd m - snd p)\<^sup>2"

definition real_centroid :: "centroid \<Rightarrow> point" where
  "real_centroid c = (fin_val (fst c), fin_val (snd c))"

subsection \<open>Example inputs\<close>

text \<open>
  The scenario of the specification: four points in two groups, two initial centroids.
\<close>

definition scenario_points :: "point list" where
  "scenario_points = [(0, 0), (0, 1), (10, 0), (10, 1)]"

definition scenario_state :: kstate where
  "scenario_state = \<lparr>centroids = [(Fin 0, Fin 0), (Fin 10, Fin 0)], labels = []\<rparr>"

text \<open>Two points and two centroids, the second centroid far from both points.\<close>

definition far_points :: "point list" where
  "far_points = [(0, 0), (1, 0)]"

definition far_state :: kstate where
  "far_state = \<lparr>centroids = [(Fin 0, Fin 0), (Fin 5, Fin 5)], labels = []\<rparr>"

text \<open>One point and two centroids.\<close>

definition crowded_points :: "point list" where
  "crowded_points = [(1, 1)]"

definition crowded_state :: kstate where
  "crowded_state = \<lparr>centroids = [(Fin 0, Fin 0), (Fin 1, Fin 1)], labels = []\<rparr>"

text \<open>Three points and three centroids, the third centroid far from all points.\<close>

definition three_points :: "point list" where
  "three_points = [(0, 0), (0, 2), (6, 1)]"

definition three_state :: kstate where
  "three_state =
     \<lparr>centroids = [(Fin 0, Fin 1), (Fin 6, Fin 1), (Fin 50, Fin 50)], labels = []\<rparr>"

text \<open>
  Two points and three centroids; the first point is at distance 1 from the second and
  from the third centroid.
\<close>

definition tie_points :: "point list" where
  "tie_points = [(1, 0), (0, 0)]"

definition tie_state :: kstate where
  "tie_state = \<lparr>centroids = [(Fin 5, Fin 5), (Fin 0, Fin 0), (Fin 2, Fin 0)], labels = []\<rparr>"


text \<open>
  Three points and three centroids, the third centroid far from all points; the first
  point is at distance 1 from the first and from the second centroid, also after the
  first round. The matrix is the one of the second round, when the third centroid,
  left without points, is \<open>NaN\<close>.
\<close>

definition nan_points :: "point list" where
  "nan_points = [(1, 0), (- 1, 0), (2, 0)]"

definition nan_state :: kstate where
  "nan_state = \<lparr>centroids = [(Fin 0, Fin 0), (Fin 2, Fin 0), (Fin 50, Fin 50)], labels = []\<rparr>"


text \<open>Four points on a line, both initial centroids near the first point.\<close>

definition drift_points :: "point list" where
  "drift_points = [(0, 0), (2, 0), (6, 0), (10, 0)]"

definition drift_state :: kstate where
  "drift_state = \<lparr>centroids = [(Fin 0, Fin 0), (Fin 1, Fin 0)], labels = []\<rparr>"

section \<open>The library operations and the loop body\<close>

lemma np_le_NaN_iff: "np_le a NaN \<longleftrightarrow> a = NaN"
  by (cases a) simp_all

lemma argmin_loop_spec:
  assumes "mp \<noteq> NaN" and "m < length pre" and "pre ! m = mp" and "i = length pre"
    and "\<forall>k<length pre. np_le mp (pre ! k)"
    and "\<forall>k<m. \<not> np_le (pre ! k) mp"
  shows "argmin_loop mp m i vs < length (pre @ vs) \<and>
         (\<forall>k<length (pre @ vs). np_le ((pre @ vs) ! argmin_loop mp m i vs) ((pre @ vs) ! k)) \<and>
         (\<forall>k<argmin_loop mp m i vs. \<not> np_le ((pre @ vs) ! k) ((pre @ vs) ! argmin_loop mp m i vs))"
  using assms
proof (induction vs arbitrary: mp m i pre)
  case Nil
  then show ?case by simp
next
  case (Cons v vs)
  obtain a where a: "mp = Fin a" using Cons.prems(1) by (cases mp) auto
  have fin: "\<forall>k<length pre. \<exists>b. pre ! k = Fin b \<and> a \<le> b"
  proof (intro allI impI)
    fix k assume "k < length pre"
    then have "np_le (Fin a) (pre ! k)" using Cons.prems(5) a by simp
    then show "\<exists>b. pre ! k = Fin b \<and> a \<le> b" by (cases "pre ! k") auto
  qed
  show ?case
  proof (cases v)
    case NaN
    then have r: "argmin_loop mp m i (v # vs) = length pre"
      using Cons.prems(4) by simp
    have "\<forall>k<length pre. \<not> np_le ((pre @ v # vs) ! k) NaN"
      using fin by (auto simp: nth_append np_le_NaN_iff)
    then show ?thesis unfolding r using NaN by (simp add: nth_append)
  next
    case (Fin b)
    show ?thesis
    proof (cases "a \<le> b")
      case True
      then have r: "argmin_loop mp m i (v # vs) = argmin_loop mp m (Suc i) vs"
        using a Fin by simp
      have "argmin_loop mp m (Suc i) vs < length ((pre @ [v]) @ vs) \<and>
         (\<forall>k<length ((pre @ [v]) @ vs). np_le (((pre @ [v]) @ vs) ! argmin_loop mp m (Suc i) vs) (((pre @ [v]) @ vs) ! k)) \<and>
         (\<forall>k<argmin_loop mp m (Suc i) vs. \<not> np_le (((pre @ [v]) @ vs) ! k) (((pre @ [v]) @ vs) ! argmin_loop mp m (Suc i) vs))"
      proof (rule Cons.IH)
        show "mp \<noteq> NaN" by (rule Cons.prems(1))
        show "m < length (pre @ [v])" using Cons.prems(2) by simp
        show "(pre @ [v]) ! m = mp" using Cons.prems(2,3) by (simp add: nth_append)
        show "Suc i = length (pre @ [v])" using Cons.prems(4) by simp
        show "\<forall>k<length (pre @ [v]). np_le mp ((pre @ [v]) ! k)"
          using Cons.prems(5) True a Fin by (auto simp: nth_append less_Suc_eq)
        show "\<forall>k<m. \<not> np_le ((pre @ [v]) ! k) mp"
          using Cons.prems(2,6) by (auto simp: nth_append)
      qed
      then show ?thesis unfolding r by simp
    next
      case False
      then have r: "argmin_loop mp m i (v # vs) = argmin_loop v i (Suc i) vs"
        using a Fin by simp
      have "argmin_loop v i (Suc i) vs < length ((pre @ [v]) @ vs) \<and>
         (\<forall>k<length ((pre @ [v]) @ vs). np_le (((pre @ [v]) @ vs) ! argmin_loop v i (Suc i) vs) (((pre @ [v]) @ vs) ! k)) \<and>
         (\<forall>k<argmin_loop v i (Suc i) vs. \<not> np_le (((pre @ [v]) @ vs) ! k) (((pre @ [v]) @ vs) ! argmin_loop v i (Suc i) vs))"
      proof (rule Cons.IH)
        show "v \<noteq> NaN" using Fin by simp
        show "i < length (pre @ [v])" using Cons.prems(4) by simp
        show "(pre @ [v]) ! i = v" using Cons.prems(4) by simp
        show "Suc i = length (pre @ [v])" using Cons.prems(4) by simp
        show "\<forall>k<length (pre @ [v]). np_le v ((pre @ [v]) ! k)"
          using fin False Fin by (fastforce simp: nth_append less_Suc_eq)
        show "\<forall>k<i. \<not> np_le ((pre @ [v]) ! k) v"
          using fin False Fin Cons.prems(4) by (fastforce simp: nth_append)
      qed
      then show ?thesis unfolding r by simp
    qed
  qed
qed

lemma argmin_spec:
  "argmin v vs < length (v # vs) \<and>
   (\<forall>k<length (v # vs). np_le ((v # vs) ! argmin v vs) ((v # vs) ! k)) \<and>
   (\<forall>k<argmin v vs. \<not> np_le ((v # vs) ! k) ((v # vs) ! argmin v vs))"
proof (cases v)
  case NaN
  then show ?thesis by (simp add: argmin_def)
next
  case (Fin a)
  have "argmin_loop v 0 1 vs < length ([v] @ vs) \<and>
         (\<forall>k<length ([v] @ vs). np_le (([v] @ vs) ! argmin_loop v 0 1 vs) (([v] @ vs) ! k)) \<and>
         (\<forall>k<argmin_loop v 0 1 vs. \<not> np_le (([v] @ vs) ! k) (([v] @ vs) ! argmin_loop v 0 1 vs))"
    by (rule argmin_loop_spec) (simp_all add: Fin)
  then show ?thesis using Fin by (simp add: argmin_def)
qed


text \<open>The square root does not change where the minimum is.\<close>

lemma euclidean_sqrt: "euclidean c p = np_sqrt (sq_euclidean c p)"
  by (induction c p rule: sq_euclidean.induct) simp_all

lemma np_ge_sqrt: "np_ge (np_sqrt v) (np_sqrt w) = np_ge v w"
  by (induction v w rule: np_ge.induct) simp_all

lemma np_sqrt_NaN_iff: "np_sqrt v = NaN \<longleftrightarrow> v = NaN"
  by (cases v) simp_all

lemma argmin_loop_sqrt:
  "argmin_loop (np_sqrt mp) m i (map np_sqrt vs) = argmin_loop mp m i vs"
  by (induction vs arbitrary: mp m i) (simp_all add: np_ge_sqrt np_sqrt_NaN_iff)

lemma argmin_sqrt: "argmin (np_sqrt v) (map np_sqrt vs) = argmin v vs"
  by (simp add: argmin_def argmin_loop_sqrt np_sqrt_NaN_iff)

lemma argmin_euclidean:
  "argmin (euclidean c p) (map (\<lambda>u. euclidean u p) cs) =
   argmin (sq_euclidean c p) (map (\<lambda>u. sq_euclidean u p) cs)"
proof -
  have "map (\<lambda>u. euclidean u p) cs = map np_sqrt (map (\<lambda>u. sq_euclidean u p) cs)"
    by (simp add: euclidean_sqrt)
  then show ?thesis using argmin_sqrt [of "sq_euclidean c p" "map (\<lambda>u. sq_euclidean u p) cs"]
    by (simp add: euclidean_sqrt comp_def)
qed


lemma argmin_axis0_cdist:
  "argmin_axis0 (map (\<lambda>u. map (\<lambda>v. euclidean u v) pts) (c # cs)) =
   Inr (map (\<lambda>p. argmin (euclidean c p) (map (\<lambda>u. euclidean u p) cs)) pts)"
proof -
  have "map (\<lambda>i. argmin (map (euclidean c) pts ! i)
                  (column (map (\<lambda>u. map (euclidean u) pts) cs) i)) [0..<length pts] =
        map (\<lambda>p. argmin (euclidean c p) (map (\<lambda>u. euclidean u p) cs)) pts"
    by (rule nth_equalityI) (simp_all add: column_def comp_def)
  then show ?thesis by (simp add: argmin_axis0_def)
qed

lemma loop_body_Cons:
  assumes "centroids s = c # cs" and "pts \<noteq> []"
  shows "loop_body pts s =
         Inr (s\<lparr>labels := map (\<lambda>p. argmin (euclidean c p) (map (\<lambda>u. euclidean u p) cs)) pts,
                centroids := cell18 (c # cs) pts
                  (map (\<lambda>p. argmin (euclidean c p) (map (\<lambda>u. euclidean u p) cs)) pts)\<rparr>)"
proof -
  have "cdist (centroids s) pts = Inr (map (\<lambda>u. map (\<lambda>v. euclidean u v) pts) (c # cs))"
    using assms by (simp add: cdist_def)
  then show ?thesis
    unfolding loop_body_def cell18_def by (simp only: argmin_axis0_cdist sum.case assms(1))
qed

lemma loop_body_error:
  "centroids s = [] \<or> pts = [] \<Longrightarrow> loop_body pts s = Inl ValueError"
  by (auto simp: loop_body_def cdist_def)

lemma loop_body_eval:
  "loop_body pts \<lparr>centroids = c # cs, labels = l\<rparr> =
     (if pts = [] then Inl ValueError
      else Inr \<lparr>centroids = cell18 (c # cs) pts
                  (map (\<lambda>p. argmin (sq_euclidean c p) (map (\<lambda>u. sq_euclidean u p) cs)) pts),
                labels = map (\<lambda>p. argmin (sq_euclidean c p) (map (\<lambda>u. sq_euclidean u p) cs)) pts\<rparr>)"
  by (simp add: loop_body_Cons loop_body_error argmin_euclidean)

lemma loop_body_explicit:
  "loop_body pts s =
     (if centroids s = [] \<or> pts = [] then Inl ValueError
      else Inr (s\<lparr>labels := assignment (centroids s) pts,
                  centroids := cell18 (centroids s) pts (assignment (centroids s) pts)\<rparr>))"
proof (cases "centroids s = [] \<or> pts = []")
  case True
  then show ?thesis by (simp add: loop_body_error)
next
  case False
  then obtain c cs where c: "centroids s = c # cs" by (cases "centroids s") auto
  with False show ?thesis by (simp add: loop_body_Cons [OF c] assignment_def)
qed

lemma loop_body_InrD:
  assumes "loop_body pts s = Inr s'"
  shows "centroids s \<noteq> []" and "pts \<noteq> []"
    and "labels s' = assignment (centroids s) pts"
    and "centroids s' = cell18 (centroids s) pts (labels s')"
  using assms by (auto simp: loop_body_explicit split: if_splits)

lemma loop_body_InrI:
  "centroids s \<noteq> [] \<Longrightarrow> pts \<noteq> [] \<Longrightarrow> \<exists>s'. loop_body pts s = Inr s'"
  by (simp add: loop_body_explicit)

lemma length_cell18: "length (cell18 cs pts ls) = length cs"
  by (simp add: cell18_def)

lemma length_assignment: "length (assignment cs pts) = length pts"
  by (simp add: assignment_def)

lemma assignment_less:
  assumes "cs \<noteq> []" and "l \<in> set (assignment cs pts)"
  shows "l < length cs"
proof -
  obtain p where "l = argmin (euclidean (hd cs) p) (map (\<lambda>u. euclidean u p) (tl cs))"
    using assms(2) by (auto simp: assignment_def)
  moreover have "argmin (euclidean (hd cs) p) (map (\<lambda>u. euclidean u p) (tl cs))
                 < length (euclidean (hd cs) p # map (\<lambda>u. euclidean u p) (tl cs))"
    using argmin_spec by blast
  ultimately show ?thesis using assms(1) by simp
qed

lemma loop_body_length_centroids:
  "loop_body pts s = Inr s' \<Longrightarrow> length (centroids s') = length (centroids s)"
  by (simp add: loop_body_InrD(4) length_cell18)

lemma loop_body_length_labels:
  "loop_body pts s = Inr s' \<Longrightarrow> length (labels s') = length pts"
  by (simp add: loop_body_InrD(3) length_assignment)

lemma loop_body_labels_less:
  "loop_body pts s = Inr s' \<Longrightarrow> l \<in> set (labels s') \<Longrightarrow> l < length (centroids s)"
  using assignment_less loop_body_InrD(1,3) by metis

text \<open>The body reads the centroids only, not the labels of the previous round.\<close>

lemma loop_body_cong:
  assumes "centroids s1 = centroids s2"
    and "loop_body pts s1 = Inr a" and "loop_body pts s2 = Inr b"
  shows "a = b"
  using assms by (auto simp: loop_body_explicit split: if_splits)

text \<open>The equations that evaluate the loop on a concrete input.\<close>

lemmas eval_simps = loop_body_eval cell18_def argmin_def mean_def mask_select_def
  eval_nat_numeral scenario_points_def scenario_state_def far_points_def far_state_def
  crowded_points_def crowded_state_def three_points_def three_state_def
  tie_points_def tie_state_def drift_points_def drift_state_def
  nan_points_def nan_state_def

section \<open>The loop and its history\<close>

lemma length_kmeans_trace_le: "length (kmeans_trace n pts s) \<le> n"
  by (induction n arbitrary: s) (auto split: sum.splits)

lemma length_kmeans_trace:
  "centroids s \<noteq> [] \<Longrightarrow> pts \<noteq> [] \<Longrightarrow> length (kmeans_trace n pts s) = n"
proof (induction n arbitrary: s)
  case 0
  then show ?case by simp
next
  case (Suc n)
  obtain s' where s': "loop_body pts s = Inr s'"
    using loop_body_InrI [OF Suc.prems] by blast
  then have "centroids s' \<noteq> []"
    using loop_body_length_centroids [OF s'] Suc.prems(1) by auto
  then show ?case using Suc.IH [of s'] Suc.prems(2) s' by simp
qed

lemma for_loop_last:
  "centroids s \<noteq> [] \<Longrightarrow> pts \<noteq> [] \<Longrightarrow>
   for_loop n pts s = Inr (last (s # kmeans_trace n pts s))"
proof (induction n arbitrary: s)
  case 0
  then show ?case by simp
next
  case (Suc n)
  obtain s' where s': "loop_body pts s = Inr s'"
    using loop_body_InrI [OF Suc.prems] by blast
  then have "centroids s' \<noteq> []"
    using loop_body_length_centroids [OF s'] Suc.prems(1) by auto
  then show ?case using Suc.IH [of s'] Suc.prems(2) s' by simp
qed

lemma for_loop_error:
  "centroids s = [] \<or> pts = [] \<Longrightarrow> for_loop (Suc n) pts s = Inl ValueError"
  by (simp add: loop_body_error)

lemma kmeans_trace_first:
  "0 < length (kmeans_trace n pts s) \<Longrightarrow> loop_body pts s = Inr (kmeans_trace n pts s ! 0)"
  by (cases n) (auto split: sum.splits)

lemma kmeans_trace_step:
  "Suc t < length (kmeans_trace n pts s) \<Longrightarrow>
   loop_body pts (kmeans_trace n pts s ! t) = Inr (kmeans_trace n pts s ! Suc t)"
proof (induction n arbitrary: s t)
  case 0
  then show ?case by simp
next
  case (Suc n)
  then obtain s' where s': "loop_body pts s = Inr s'"
    by (auto split: sum.splits)
  then have tr: "kmeans_trace (Suc n) pts s = s' # kmeans_trace n pts s'" by simp
  show ?case
  proof (cases t)
    case 0
    then have "0 < length (kmeans_trace n pts s')" using Suc.prems tr by simp
    then show ?thesis using 0 tr kmeans_trace_first by simp
  next
    case (Suc u)
    then have "Suc u < length (kmeans_trace n pts s')" using Suc.prems tr by simp
    then show ?thesis using Suc tr Suc.IH by simp
  qed
qed

text \<open>Every state of the history is the result of the body, run on \<open>K\<close> centroids.\<close>

lemma kmeans_trace_mem:
  "st \<in> set (kmeans_trace n pts s) \<Longrightarrow>
   \<exists>s0. loop_body pts s0 = Inr st \<and> length (centroids s0) = length (centroids s)"
proof (induction n arbitrary: s)
  case 0
  then show ?case by simp
next
  case (Suc n)
  obtain s' where s': "loop_body pts s = Inr s'"
    using Suc.prems by (cases "loop_body pts s") auto
  have "st = s' \<or> st \<in> set (kmeans_trace n pts s')" using Suc.prems s' by simp
  then show ?case
  proof
    assume "st = s'"
    then show ?thesis using s' by blast
  next
    assume "st \<in> set (kmeans_trace n pts s')"
    then obtain s0 where "loop_body pts s0 = Inr st"
      and "length (centroids s0) = length (centroids s')"
      using Suc.IH by blast
    then show ?thesis using loop_body_length_centroids [OF s'] by auto
  qed
qed

lemma cell18_length_cong: "length cs = length cs' \<Longrightarrow> cell18 cs pts ls = cell18 cs' pts ls"
  by (simp add: cell18_def)

lemma mask_select_empty: "j \<notin> set ls \<Longrightarrow> mask_select a ls j = []"
  by (auto simp: mask_select_def filter_empty_conv dest: set_zip_rightD)

lemma mask_select_nonempty:
  assumes "j \<in> set ls" and "length a = length ls"
  shows "mask_select a ls j \<noteq> []"
proof -
  obtain i where i: "i < length ls" "ls ! i = j"
    using assms(1) by (auto simp: in_set_conv_nth)
  then have "(a ! i, j) \<in> set (zip a ls)"
    using assms(2) by (auto simp: set_zip)
  then show ?thesis
    by (auto simp: mask_select_def filter_empty_conv)
qed

lemma cell18_nth:
  "j < length cs \<Longrightarrow>
   cell18 cs pts ls ! j =
     (mean (mask_select (map fst pts) ls j), mean (mask_select (map snd pts) ls j))"
  by (simp add: cell18_def)

lemma trace_stable_step:
  assumes "Suc t < length (kmeans_trace n pts s)"
    and "labels (kmeans_trace n pts s ! Suc t) = labels (kmeans_trace n pts s ! t)"
  shows "kmeans_trace n pts s ! Suc t = kmeans_trace n pts s ! t"
proof -
  let ?tr = "kmeans_trace n pts s"
  have step: "loop_body pts (?tr ! t) = Inr (?tr ! Suc t)"
    using kmeans_trace_step [OF assms(1)] .
  have "?tr ! t \<in> set ?tr" using assms(1) by simp
  then obtain s0 where s0: "loop_body pts s0 = Inr (?tr ! t)"
    using kmeans_trace_mem by blast
  have "length (centroids (?tr ! t)) = length (centroids s0)"
    using loop_body_length_centroids [OF s0] .
  then have "cell18 (centroids (?tr ! t)) pts (labels (?tr ! t)) =
             cell18 (centroids s0) pts (labels (?tr ! t))"
    by (rule cell18_length_cong)
  then have "centroids (?tr ! Suc t) = centroids (?tr ! t)"
    using loop_body_InrD(4) [OF step] loop_body_InrD(4) [OF s0] assms(2) by simp
  then show ?thesis using assms(2) by simp
qed

lemma trace_stable_later:
  assumes "Suc t < length (kmeans_trace n pts s)"
    and "labels (kmeans_trace n pts s ! Suc t) = labels (kmeans_trace n pts s ! t)"
  shows "t + d < length (kmeans_trace n pts s) \<Longrightarrow>
         kmeans_trace n pts s ! (t + d) = kmeans_trace n pts s ! t"
proof (induction d)
  case 0
  then show ?case by simp
next
  case (Suc d)
  let ?tr = "kmeans_trace n pts s"
  have d: "?tr ! (t + d) = ?tr ! t" using Suc by simp
  have "loop_body pts (?tr ! (t + d)) = Inr (?tr ! Suc (t + d))"
    using kmeans_trace_step [of "t + d" n pts s] Suc.prems by simp
  moreover have "loop_body pts (?tr ! t) = Inr (?tr ! Suc t)"
    using kmeans_trace_step [OF assms(1)] .
  ultimately have "?tr ! Suc (t + d) = ?tr ! Suc t" using d by simp
  then show ?case using trace_stable_step [OF assms] by simp
qed

lemma mean_nonempty_fin: "a \<noteq> [] \<Longrightarrow> is_fin (mean a)"
  by (simp add: mean_def)

lemma loop_body_member_finite:
  assumes "loop_body pts s = Inr s'" and "j < length (centroids s)" and "j \<in> set (labels s')"
  shows "finite_centroid (centroids s' ! j)"
proof -
  have len: "length (labels s') = length pts"
    using loop_body_length_labels [OF assms(1)] .
  have "mask_select (map fst pts) (labels s') j \<noteq> []"
    and "mask_select (map snd pts) (labels s') j \<noteq> []"
    using mask_select_nonempty [OF assms(3)] len by simp_all
  then show ?thesis
    using assms(2)
    by (simp add: loop_body_InrD(4) [OF assms(1)] cell18_nth finite_centroid_def mean_nonempty_fin)
qed

section \<open>The distortion\<close>

text \<open>The mean of a list minimises the sum of the squared differences to its elements.\<close>

lemma sum_sq_expand:
  "sum_list (map (\<lambda>x. (a - x)\<^sup>2) xs) =
   real (length xs) * a\<^sup>2 - 2 * a * sum_list xs + sum_list (map (\<lambda>x. x\<^sup>2) xs)"
  by (induction xs) (simp_all add: algebra_simps power2_eq_square)

lemma mean_minimises:
  fixes xs :: "real list"
  assumes "xs \<noteq> []"
  shows "sum_list (map (\<lambda>x. (sum_list xs / real (length xs) - x)\<^sup>2) xs)
         \<le> sum_list (map (\<lambda>x. (a - x)\<^sup>2) xs)"
proof -
  define n where "n = real (length xs)"
  define m where "m = sum_list xs / n"
  have n: "0 < n" using assms by (simp add: n_def)
  have S: "sum_list xs = n * m" using n by (simp add: m_def)
  have "sum_list (map (\<lambda>x. (a - x)\<^sup>2) xs) - sum_list (map (\<lambda>x. (m - x)\<^sup>2) xs)
        = n * (a - m)\<^sup>2"
    unfolding sum_sq_expand [of a] sum_sq_expand [of m] S n_def [symmetric]
    by (simp add: algebra_simps power2_eq_square)
  moreover have "0 \<le> n * (a - m)\<^sup>2" using n by simp
  ultimately show ?thesis unfolding m_def n_def by linarith
qed

text \<open>A sum over labelled points, regrouped cluster by cluster.\<close>

lemma sum_list_regroup:
  fixes g :: "nat \<Rightarrow> 'a \<Rightarrow> real"
  assumes "\<forall>z\<in>set zs. snd z < K"
  shows "sum_list (map (\<lambda>z. g (snd z) (fst z)) zs) =
         (\<Sum>j<K. sum_list (map (\<lambda>z. g j (fst z)) (filter (\<lambda>z. snd z = j) zs)))"
  using assms
proof (induction zs)
  case Nil
  then show ?case by simp
next
  case (Cons z zs)
  have K: "snd z < K" using Cons.prems by simp
  have "(\<Sum>j<K. sum_list (map (\<lambda>z. g j (fst z)) (filter (\<lambda>z. snd z = j) (z # zs)))) =
        (\<Sum>j<K. (if snd z = j then g j (fst z) else 0) +
                 sum_list (map (\<lambda>z. g j (fst z)) (filter (\<lambda>z. snd z = j) zs)))"
    by (rule sum.cong) simp_all
  also have "\<dots> = (\<Sum>j<K. if snd z = j then g j (fst z) else 0) +
                   (\<Sum>j<K. sum_list (map (\<lambda>z. g j (fst z)) (filter (\<lambda>z. snd z = j) zs)))"
    by (rule sum.distrib)
  also have "(\<Sum>j<K. if snd z = j then g j (fst z) else 0) = g (snd z) (fst z)"
    using K by (simp add: sum.delta')
  finally show ?case using Cons by simp
qed

lemma mask_select_fst:
  "mask_select (map fst pts) ls j = map fst (map fst (filter (\<lambda>z. snd z = j) (zip pts ls)))"
  by (simp add: mask_select_def zip_map1 filter_map comp_def case_prod_unfold)

lemma mask_select_snd:
  "mask_select (map snd pts) ls j = map snd (map fst (filter (\<lambda>z. snd z = j) (zip pts ls)))"
  by (simp add: mask_select_def zip_map1 filter_map comp_def case_prod_unfold)

lemma cluster_mean_minimises:
  fixes C :: "point list"
  assumes "C \<noteq> []"
  shows "sum_list (map (sq_dist (sum_list (map fst C) / real (length C),
                                sum_list (map snd C) / real (length C))) C)
         \<le> sum_list (map (sq_dist m) C)"
proof -
  have x: "sum_list (map (\<lambda>x. (sum_list (map fst C) / real (length (map fst C)) - x)\<^sup>2) (map fst C))
           \<le> sum_list (map (\<lambda>x. (fst m - x)\<^sup>2) (map fst C))"
    by (rule mean_minimises) (simp add: assms)
  have y: "sum_list (map (\<lambda>x. (sum_list (map snd C) / real (length (map snd C)) - x)\<^sup>2) (map snd C))
           \<le> sum_list (map (\<lambda>x. (snd m - x)\<^sup>2) (map snd C))"
    by (rule mean_minimises) (simp add: assms)
  have split: "sum_list (map (sq_dist c) C) =
          sum_list (map (\<lambda>x. (fst c - x)\<^sup>2) (map fst C)) +
          sum_list (map (\<lambda>x. (snd c - x)\<^sup>2) (map snd C))" for c
    by (induction C) (simp_all add: sq_dist_def)
  show ?thesis unfolding split using x y by simp
qed

text \<open>Finite values: the distortion as a sum of real numbers.\<close>

lemma foldr_np_add_fin:
  "\<forall>v\<in>set vs. is_fin v \<Longrightarrow> foldr np_add vs (Fin 0) = Fin (sum_list (map fin_val vs))"
proof (induction vs)
  case Nil
  then show ?case by simp
next
  case (Cons v vs)
  then obtain a where "v = Fin a" by (cases v) auto
  then show ?case using Cons by simp
qed

lemma finite_centroidE:
  assumes "finite_centroid c"
  obtains a b where "c = (Fin a, Fin b)"
proof -
  obtain u v where c: "c = (u, v)" by (cases c)
  obtain a where "u = Fin a" using assms c by (cases u) (auto simp: finite_centroid_def)
  moreover obtain b where "v = Fin b" using assms c by (cases v) (auto simp: finite_centroid_def)
  ultimately show ?thesis using c that by blast
qed

lemma sq_euclidean_fin:
  assumes "finite_centroid c"
  shows "sq_euclidean c p = Fin (sq_dist (real_centroid c) p)"
proof -
  obtain a b where "c = (Fin a, Fin b)" using assms by (rule finite_centroidE)
  then show ?thesis by (cases p) (simp add: sq_dist_def real_centroid_def)
qed

lemma euclidean_fin:
  assumes "finite_centroid c"
  shows "euclidean c p = Fin (sqrt (sq_dist (real_centroid c) p))"
  by (simp add: euclidean_sqrt sq_euclidean_fin [OF assms])

lemma distortion_fin:
  assumes "\<forall>l\<in>set (labels s). finite_centroid (centroids s ! l)"
  shows "distortion pts s =
         Fin (sum_list (map (\<lambda>z. sq_dist (real_centroid (centroids s ! snd z)) (fst z))
                (zip pts (labels s))))"
proof -
  let ?vs = "map (\<lambda>(p, l). sq_euclidean (centroids s ! l) p) (zip pts (labels s))"
  have eq: "?vs = map (\<lambda>z. Fin (sq_dist (real_centroid (centroids s ! snd z)) (fst z)))
                    (zip pts (labels s))"
  proof (rule map_cong [OF refl])
    fix z assume "z \<in> set (zip pts (labels s))"
    then have "snd z \<in> set (labels s)" by (metis prod.collapse set_zip_rightD)
    then have "finite_centroid (centroids s ! snd z)" using assms by blast
    then show "(case z of (p, l) \<Rightarrow> sq_euclidean (centroids s ! l) p) =
               Fin (sq_dist (real_centroid (centroids s ! snd z)) (fst z))"
      by (cases z) (simp add: sq_euclidean_fin)
  qed
  have "foldr np_add ?vs (Fin 0) = Fin (sum_list (map fin_val ?vs))"
    by (rule foldr_np_add_fin) (simp add: eq)
  then show ?thesis unfolding distortion_def by (simp add: eq comp_def)
qed

text \<open>The assignment step: the label is the first index of a nearest centroid.\<close>

lemma assignment_minimal:
  assumes "cs \<noteq> []" and "i < length pts"
  shows "assignment cs pts ! i < length cs"
    and "\<forall>k<length cs. np_le (euclidean (cs ! (assignment cs pts ! i)) (pts ! i))
                             (euclidean (cs ! k) (pts ! i))"
    and "\<forall>k<assignment cs pts ! i.
           \<not> np_le (euclidean (cs ! k) (pts ! i))
                   (euclidean (cs ! (assignment cs pts ! i)) (pts ! i))"
proof -
  let ?p = "pts ! i"
  let ?ds = "map (\<lambda>u. euclidean u ?p) cs"
  let ?j = "argmin (euclidean (hd cs) ?p) (map (\<lambda>u. euclidean u ?p) (tl cs))"
  have ds: "euclidean (hd cs) ?p # map (\<lambda>u. euclidean u ?p) (tl cs) = ?ds"
    using assms(1) by (cases cs) simp_all
  have l: "assignment cs pts ! i = ?j"
    using assms(2) by (simp add: assignment_def)
  have spec: "?j < length ?ds \<and> (\<forall>k<length ?ds. np_le (?ds ! ?j) (?ds ! k)) \<and>
              (\<forall>k<?j. \<not> np_le (?ds ! k) (?ds ! ?j))"
    using argmin_spec [of "euclidean (hd cs) ?p" "map (\<lambda>u. euclidean u ?p) (tl cs)"]
    unfolding ds .
  have nth: "?ds ! k = euclidean (cs ! k) ?p" if "k < length cs" for k
    using that by (rule nth_map)
  have len: "length ?ds = length cs" by simp
  have j: "?j < length cs" using spec unfolding len by blast
  show "assignment cs pts ! i < length cs" using j l by simp
  show "\<forall>k<length cs. np_le (euclidean (cs ! (assignment cs pts ! i)) ?p) (euclidean (cs ! k) ?p)"
  proof (intro allI impI)
    fix k assume k: "k < length cs"
    then have "np_le (?ds ! ?j) (?ds ! k)" using spec unfolding len by blast
    then show "np_le (euclidean (cs ! (assignment cs pts ! i)) ?p) (euclidean (cs ! k) ?p)"
      unfolding l nth [OF k] nth [OF j] .
  qed
  show "\<forall>k<assignment cs pts ! i.
           \<not> np_le (euclidean (cs ! k) ?p) (euclidean (cs ! (assignment cs pts ! i)) ?p)"
  proof (intro allI impI)
    fix k assume "k < assignment cs pts ! i"
    then have kj: "k < ?j" using l by simp
    then have k: "k < length cs" using j by simp
    have "\<not> np_le (?ds ! k) (?ds ! ?j)" using spec kj by blast
    then show "\<not> np_le (euclidean (cs ! k) ?p) (euclidean (cs ! (assignment cs pts ! i)) ?p)"
      unfolding l nth [OF k] nth [OF j] .
  qed
qed

text \<open>Neither step of the body increases the sum of the squared distances.\<close>

lemma sum_list_zip_nth:
  fixes f :: "'a \<times> 'b \<Rightarrow> real"
  assumes "length ls = length pts"
  shows "sum_list (map f (zip pts ls)) = (\<Sum>i<length pts. f (pts ! i, ls ! i))"
proof -
  have "sum_list (map f (zip pts ls)) =
        (\<Sum>i = 0..<length (map f (zip pts ls)). map f (zip pts ls) ! i)"
    by (rule sum_list_sum_nth)
  also have "\<dots> = (\<Sum>i<length pts. f (pts ! i, ls ! i))"
    using assms by (intro sum.cong) (auto simp: lessThan_atLeast0)
  finally show ?thesis .
qed

lemma assignment_improves:
  assumes cs: "cs \<noteq> []" and fin: "\<forall>k<length cs. finite_centroid (cs ! k)"
    and len: "length ls = length pts" and lt: "\<forall>l\<in>set ls. l < length cs"
  shows "sum_list (map (\<lambda>z. sq_dist (real_centroid (cs ! snd z)) (fst z))
           (zip pts (assignment cs pts)))
         \<le> sum_list (map (\<lambda>z. sq_dist (real_centroid (cs ! snd z)) (fst z)) (zip pts ls))"
proof -
  have "sq_dist (real_centroid (cs ! (assignment cs pts ! i))) (pts ! i)
        \<le> sq_dist (real_centroid (cs ! (ls ! i))) (pts ! i)" if i: "i < length pts" for i
  proof -
    have k: "ls ! i < length cs" using lt len i by simp
    have j: "assignment cs pts ! i < length cs" using assignment_minimal(1) [OF cs i] .
    have "np_le (euclidean (cs ! (assignment cs pts ! i)) (pts ! i))
                (euclidean (cs ! (ls ! i)) (pts ! i))"
      using assignment_minimal(2) [OF cs i] k by blast
    then show ?thesis
      using fin j k by (simp add: euclidean_fin)
  qed
  then have "(\<Sum>i<length pts. sq_dist (real_centroid (cs ! (assignment cs pts ! i))) (pts ! i))
             \<le> (\<Sum>i<length pts. sq_dist (real_centroid (cs ! (ls ! i))) (pts ! i))"
    by (intro sum_mono) simp
  then show ?thesis
    by (simp add: sum_list_zip_nth len length_assignment)
qed

lemma update_improves:
  assumes lt: "\<forall>l\<in>set ls. l < length cs"
  shows "sum_list (map (\<lambda>z. sq_dist (real_centroid (cell18 cs pts ls ! snd z)) (fst z))
           (zip pts ls))
         \<le> sum_list (map (\<lambda>z. sq_dist (m (snd z)) (fst z)) (zip pts ls))"
proof -
  let ?zs = "zip pts ls"
  let ?C = "\<lambda>j. map fst (filter (\<lambda>z. snd z = j) ?zs)"
  have zs: "\<forall>z\<in>set ?zs. snd z < length cs"
    using lt by (metis prod.collapse set_zip_rightD)
  have cluster: "sum_list (map (\<lambda>z. sq_dist (real_centroid (cell18 cs pts ls ! j)) (fst z))
                   (filter (\<lambda>z. snd z = j) ?zs))
                 \<le> sum_list (map (\<lambda>z. sq_dist (m j) (fst z)) (filter (\<lambda>z. snd z = j) ?zs))"
    if j: "j < length cs" for j
  proof (cases "?C j = []")
    case True
    then show ?thesis by simp
  next
    case False
    have x: "mask_select (map fst pts) ls j = map fst (?C j)" by (rule mask_select_fst)
    have y: "mask_select (map snd pts) ls j = map snd (?C j)" by (rule mask_select_snd)
    have "real_centroid (cell18 cs pts ls ! j) =
          (sum_list (map fst (?C j)) / real (length (?C j)),
           sum_list (map snd (?C j)) / real (length (?C j)))"
      using False unfolding cell18_nth [OF j] x y
      by (simp add: real_centroid_def mean_def)
    then have "sum_list (map (sq_dist (real_centroid (cell18 cs pts ls ! j))) (?C j))
               \<le> sum_list (map (sq_dist (m j)) (?C j))"
      using cluster_mean_minimises [OF False, of "m j"] by simp
    then show ?thesis by (simp add: comp_def)
  qed
  have "sum_list (map (\<lambda>z. sq_dist (real_centroid (cell18 cs pts ls ! snd z)) (fst z)) ?zs) =
        (\<Sum>j<length cs. sum_list (map (\<lambda>z. sq_dist (real_centroid (cell18 cs pts ls ! j)) (fst z))
           (filter (\<lambda>z. snd z = j) ?zs)))"
    using zs by (rule sum_list_regroup [where g = "\<lambda>j. sq_dist (real_centroid (cell18 cs pts ls ! j))"])
  moreover have "sum_list (map (\<lambda>z. sq_dist (m (snd z)) (fst z)) ?zs) =
        (\<Sum>j<length cs. sum_list (map (\<lambda>z. sq_dist (m j) (fst z)) (filter (\<lambda>z. snd z = j) ?zs)))"
    using zs by (rule sum_list_regroup [where g = "\<lambda>j. sq_dist (m j)"])
  moreover have "(\<Sum>j<length cs. sum_list (map (\<lambda>z. sq_dist (real_centroid (cell18 cs pts ls ! j)) (fst z))
           (filter (\<lambda>z. snd z = j) ?zs)))
        \<le> (\<Sum>j<length cs. sum_list (map (\<lambda>z. sq_dist (m j) (fst z)) (filter (\<lambda>z. snd z = j) ?zs)))"
    by (intro sum_mono cluster) simp
  ultimately show ?thesis by simp
qed

lemma loop_body_distortion:
  assumes s1: "loop_body pts s0 = Inr s1" and s2: "loop_body pts s1 = Inr s2"
    and full: "\<forall>j<length (centroids s0). j \<in> set (labels s1)"
  shows "np_ge (distortion pts s1) (distortion pts s2)"
proof -
  let ?cs = "centroids s1"
  let ?sum = "\<lambda>c ls. sum_list (map (\<lambda>z. sq_dist (real_centroid (c ! snd z)) (fst z)) (zip pts ls))"
  have K: "length ?cs = length (centroids s0)"
    using loop_body_length_centroids [OF s1] .
  have cs: "?cs \<noteq> []" using loop_body_InrD(1) [OF s2] .
  have fin1: "\<forall>k<length ?cs. finite_centroid (?cs ! k)"
    using loop_body_member_finite [OF s1] full K by simp
  have lt1: "\<forall>l\<in>set (labels s1). l < length ?cs"
    using loop_body_labels_less [OF s1] K by simp
  have lt2: "\<forall>l\<in>set (labels s2). l < length ?cs"
    using loop_body_labels_less [OF s2] by simp
  have d1: "distortion pts s1 = Fin (?sum ?cs (labels s1))"
    using fin1 lt1 by (intro distortion_fin) simp
  have d2: "distortion pts s2 = Fin (?sum (centroids s2) (labels s2))"
    using loop_body_member_finite [OF s2] lt2 by (intro distortion_fin) simp
  have l2: "labels s2 = assignment ?cs pts" using loop_body_InrD(3) [OF s2] .
  have c2: "centroids s2 = cell18 ?cs pts (labels s2)" using loop_body_InrD(4) [OF s2] .
  have "?sum (centroids s2) (labels s2) \<le> ?sum ?cs (labels s2)"
    unfolding c2 using lt2 by (rule update_improves)
  also have "\<dots> \<le> ?sum ?cs (labels s1)"
    unfolding l2 using cs fin1 loop_body_length_labels [OF s1] lt1
    by (rule assignment_improves)
  finally show ?thesis by (simp add: d1 d2)
qed

text \<open>
  In the exact arithmetic of the model the distortion does not increase from one round
  to the next as long as every centroid has a point assigned to it in the earlier
  round: the empty cluster is the only way in which the loop makes it grow.
\<close>

lemma distortion_non_increasing:
  assumes "Suc t < length (kmeans_trace n pts s)"
    and "\<forall>j<length (centroids s). j \<in> set (labels (kmeans_trace n pts s ! t))"
  shows "np_ge (distortion pts (kmeans_trace n pts s ! t))
               (distortion pts (kmeans_trace n pts s ! Suc t))"
proof -
  let ?tr = "kmeans_trace n pts s"
  have "?tr ! t \<in> set ?tr" using assms(1) by simp
  then obtain s0 where s0: "loop_body pts s0 = Inr (?tr ! t)"
    and K: "length (centroids s0) = length (centroids s)"
    using kmeans_trace_mem by blast
  have step: "loop_body pts (?tr ! t) = Inr (?tr ! Suc t)"
    using kmeans_trace_step [OF assms(1)] .
  show ?thesis
    using loop_body_distortion [OF s0 step] assms(2) K by simp
qed


lemma distortion_non_increasing_example:
  "Suc 0 < length (kmeans_trace 2 drift_points drift_state) \<and>
   length (centroids drift_state) = 2 \<and>
   0 \<in> set (labels (kmeans_trace 2 drift_points drift_state ! 0)) \<and>
   1 \<in> set (labels (kmeans_trace 2 drift_points drift_state ! 0)) \<and>
   distortion drift_points (kmeans_trace 2 drift_points drift_state ! 0) = Fin 32 \<and>
   distortion drift_points (kmeans_trace 2 drift_points drift_state ! Suc 0) = Fin 10 \<and>
   np_ge (distortion drift_points (kmeans_trace 2 drift_points drift_state ! 0))
         (distortion drift_points (kmeans_trace 2 drift_points drift_state ! Suc 0))"
proof -
  have tr: "kmeans_trace 2 drift_points drift_state =
      [\<lparr>centroids = [(Fin 0, Fin 0), (Fin 6, Fin 0)], labels = [0, 1, 1, 1]\<rparr>,
       \<lparr>centroids = [(Fin 1, Fin 0), (Fin 8, Fin 0)], labels = [0, 0, 1, 1]\<rparr>]"
    by (simp add: eval_simps)
  have t: "Suc 0 < length (kmeans_trace 2 drift_points drift_state)"
    by (simp add: tr)
  have K: "length (centroids drift_state) = 2" by (simp add: drift_state_def)
  have l0: "0 \<in> set (labels (kmeans_trace 2 drift_points drift_state ! 0))"
    unfolding tr by simp
  have l1: "1 \<in> set (labels (kmeans_trace 2 drift_points drift_state ! 0))"
    unfolding tr by simp
  have full: "\<forall>j<length (centroids drift_state).
      j \<in> set (labels (kmeans_trace 2 drift_points drift_state ! 0))"
    unfolding K using l0 l1 by (auto simp: less_Suc_eq numeral_2_eq_2)
  have d0: "distortion drift_points (kmeans_trace 2 drift_points drift_state ! 0) = Fin 32"
    unfolding tr by (simp add: distortion_def drift_points_def)
  have d1: "distortion drift_points (kmeans_trace 2 drift_points drift_state ! Suc 0) = Fin 10"
    unfolding tr by (simp add: distortion_def drift_points_def)
  show ?thesis using t K l0 l1 d0 d1 distortion_non_increasing [OF t full] by blast
qed

section \<open>The operations of one round\<close>






lemma loop_body_operations:
  assumes "centroids s \<noteq> []" and "pts \<noteq> []"
  shows "\<exists>ds ls. cdist (centroids s) pts = Inr ds \<and> argmin_axis0 ds = Inr ls"
  using assms by (cases "centroids s") (simp_all add: cdist_def argmin_axis0_def)

section \<open>The claims\<close>

text \<open>
  C1, as the code has it. The loop has no convergence test and no \<open>converged\<close> flag:
  with at least one centroid and one point it runs the body exactly \<open>n\<close> times. What
  holds instead of an early stop: once the labels of a round are those of the round
  before, every later round recomputes the same labels and the same centroids.
\<close>

theorem loop_runs_all_iterations:
  assumes "centroids s \<noteq> []" and "pts \<noteq> []"
  shows "length (kmeans_trace n pts s) = n \<and>
         (\<forall>t u. Suc t < n \<and>
                labels (kmeans_trace n pts s ! Suc t) = labels (kmeans_trace n pts s ! t) \<and>
                t \<le> u \<and> u < n \<longrightarrow>
                kmeans_trace n pts s ! u = kmeans_trace n pts s ! t)"
proof -
  have len: "length (kmeans_trace n pts s) = n"
    using assms by (rule length_kmeans_trace)
  have "kmeans_trace n pts s ! u = kmeans_trace n pts s ! t"
    if a: "Suc t < n"
      and b: "labels (kmeans_trace n pts s ! Suc t) = labels (kmeans_trace n pts s ! t)"
      and c: "t \<le> u" and d: "u < n" for t u
  proof -
    obtain k where "u = t + k" using c le_Suc_ex by blast
    then show ?thesis
      using trace_stable_later [of t n pts s k] a b d len by simp
  qed
  then show ?thesis using len by blast
qed

theorem loop_runs_all_iterations_witness:
  "centroids scenario_state \<noteq> [] \<and> scenario_points \<noteq> [] \<and>
   labels (kmeans_trace 20 scenario_points scenario_state ! Suc 0) =
     labels (kmeans_trace 20 scenario_points scenario_state ! 0) \<and>
   length (kmeans_trace 20 scenario_points scenario_state) = 20 \<and>
   kmeans_trace 20 scenario_points scenario_state ! 19 =
     kmeans_trace 20 scenario_points scenario_state ! 0"
proof -
  have c: "centroids scenario_state \<noteq> []" by (simp add: scenario_state_def)
  have p: "scenario_points \<noteq> []" by (simp add: scenario_points_def)
  have l: "labels (kmeans_trace 20 scenario_points scenario_state ! Suc 0) =
     labels (kmeans_trace 20 scenario_points scenario_state ! 0)"
    by (simp add: eval_simps)
  note th = loop_runs_all_iterations [OF c p, of 20]
  have len: "length (kmeans_trace 20 scenario_points scenario_state) = 20"
    using th by (rule conjunct1)
  have "kmeans_trace 20 scenario_points scenario_state ! 19 =
     kmeans_trace 20 scenario_points scenario_state ! 0"
    by (rule th [THEN conjunct2, rule_format]) (simp add: l)
  with c p l len show ?thesis by blast
qed

text \<open>
  C1 as stated fails: on the scenario of the specification the labels of the second
  round are those of the first, and the loop still runs all its 20 rounds.
\<close>

theorem stops_at_convergence_counterexample:
  "labels (kmeans_trace iterations scenario_points scenario_state ! 1) =
     labels (kmeans_trace iterations scenario_points scenario_state ! 0) \<and>
   length (kmeans_trace iterations scenario_points scenario_state) = 20"
  by (simp add: iterations_def eval_simps)

text \<open>
  C2, as the code has it. A centroid that no point is assigned to is not kept in place:
  the means of its empty slices are \<open>NaN\<close>, so both its coordinates become \<open>NaN\<close>. No
  exception is raised.
\<close>

theorem empty_cluster_nan:
  assumes "loop_body pts s = Inr s'" and "j < length (centroids s)"
    and "j \<notin> set (labels s')"
  shows "centroids s' ! j = (NaN, NaN)"
  using assms
  by (simp add: loop_body_InrD(4) [OF assms(1)] cell18_nth mask_select_empty mean_def)

theorem empty_cluster_nan_witness:
  "loop_body far_points far_state =
     Inr \<lparr>centroids = [(Fin (1 / 2), Fin 0), (NaN, NaN)], labels = [0, 0]\<rparr> \<and>
   (1::nat) < length (centroids far_state) \<and>
   (1::nat) \<notin> set (labels \<lparr>centroids = [(Fin (1 / 2), Fin 0), (NaN, NaN)], labels = [0, 0]\<rparr>) \<and>
   centroids \<lparr>centroids = [(Fin (1 / 2), Fin 0), (NaN, NaN)], labels = [0, 0]\<rparr> ! 1 = (NaN, NaN)"
proof -
  have b: "loop_body far_points far_state =
     Inr \<lparr>centroids = [(Fin (1 / 2), Fin 0), (NaN, NaN)], labels = [0, 0]\<rparr>"
    by (simp add: eval_simps)
  have j: "(1::nat) < length (centroids far_state)" by (simp add: far_state_def)
  have e: "(1::nat) \<notin> set (labels \<lparr>centroids = [(Fin (1 / 2), Fin 0), (NaN, NaN)], labels = [0, 0]\<rparr>)"
    by simp
  show ?thesis using b j e empty_cluster_nan [OF b j e] by blast
qed

text \<open>
  C2 as stated fails: both points are nearest to the first centroid, and the second
  centroid moves from \<open>(5, 5)\<close> to \<open>(NaN, NaN)\<close>.
\<close>

theorem freeze_in_place_counterexample:
  "loop_body far_points far_state =
     Inr \<lparr>centroids = [(Fin (1 / 2), Fin 0), (NaN, NaN)], labels = [0, 0]\<rparr> \<and>
   centroids far_state ! 1 = (Fin 5, Fin 5)"
  by (simp add: eval_simps)

text \<open>
  C3, as the code has it. With a valid configuration the loop raises no exception: it
  runs all its \<open>n\<close> rounds and returns the state of the last one, and in every round
  \<open>cdist\<close> and \<open>argmin\<close> return a value, their \<open>ValueError\<close> being out of reach (\<open>mean\<close>
  raises none). This rests on the numbers of centroids and points alone, not on the
  values computed. Nothing is said of the values: an undefined one can appear.
\<close>

theorem valid_run_no_exception:
  assumes "valid_config n (centroids s) pts"
  shows "\<exists>s'. for_loop n pts s = Inr s' \<and> s' = last (kmeans_trace n pts s) \<and>
           length (kmeans_trace n pts s) = n \<and>
           (\<forall>st\<in>set (s # kmeans_trace n pts s).
               \<exists>ds ls. cdist (centroids st) pts = Inr ds \<and> argmin_axis0 ds = Inr ls)"
proof -
  have c: "centroids s \<noteq> []" and p: "pts \<noteq> []" and n: "0 < n"
    using assms by (auto simp: valid_config_def)
  have len: "length (kmeans_trace n pts s) = n"
    using c p by (rule length_kmeans_trace)
  then have "kmeans_trace n pts s \<noteq> []" using n by auto
  then have run: "for_loop n pts s = Inr (last (kmeans_trace n pts s))"
    using for_loop_last [OF c p, of n] by simp
  have "\<exists>ds ls. cdist (centroids st) pts = Inr ds \<and> argmin_axis0 ds = Inr ls"
    if a: "st \<in> set (s # kmeans_trace n pts s)" for st
  proof -
    have "centroids st \<noteq> []"
    proof (cases "st = s")
      case True
      then show ?thesis using c by simp
    next
      case False
      then have "st \<in> set (kmeans_trace n pts s)" using a by simp
      then obtain s0 where "loop_body pts s0 = Inr st"
        and "length (centroids s0) = length (centroids s)"
        using kmeans_trace_mem by blast
      then show ?thesis using loop_body_length_centroids [of pts s0 st] c by auto
    qed
    then show ?thesis using p by (rule loop_body_operations)
  qed
  then show ?thesis using run len by blast
qed

theorem valid_run_no_exception_witness:
  "valid_config 2 (centroids scenario_state) scenario_points \<and>
   for_loop 2 scenario_points scenario_state =
     Inr (last (kmeans_trace 2 scenario_points scenario_state)) \<and>
   length (kmeans_trace 2 scenario_points scenario_state) = 2 \<and>
   (\<exists>ds ls. cdist (centroids (kmeans_trace 2 scenario_points scenario_state ! 0)) scenario_points
              = Inr ds \<and> argmin_axis0 ds = Inr ls)"
proof -
  have v: "valid_config 2 (centroids scenario_state) scenario_points"
    by (simp add: valid_config_def finite_centroid_def scenario_points_def scenario_state_def)
  have m: "kmeans_trace 2 scenario_points scenario_state ! 0
      \<in> set (scenario_state # kmeans_trace 2 scenario_points scenario_state)"
    by (simp add: eval_simps)
  show ?thesis using v m valid_run_no_exception [OF v] by blast
qed

text \<open>
  C3 as stated fails: a valid configuration (two points, two finite centroids, one
  round) whose result holds the undefined value \<open>NaN\<close>.
\<close>

theorem valid_run_nan_counterexample:
  "valid_config 1 (centroids far_state) far_points \<and>
   for_loop 1 far_points far_state =
     Inr \<lparr>centroids = [(Fin (1 / 2), Fin 0), (NaN, NaN)], labels = [0, 0]\<rparr>"
  by (simp add: valid_config_def finite_centroid_def eval_simps)




text \<open>
  C5, as the code has it. The notebook has no construction step and no
  \<open>ConfigurationError\<close>. The loop raises exactly when it runs at least one round on no
  centroid or no point; the exception is then the \<open>ValueError\<close> of \<open>cdist\<close> in the first
  round, before any round is completed. More centroids than points, and zero rounds,
  are accepted.
\<close>

theorem loop_fails_iff:
  "((\<exists>e. for_loop n pts s = Inl e) \<longleftrightarrow> 0 < n \<and> (centroids s = [] \<or> pts = [])) \<and>
   ((\<exists>e. for_loop n pts s = Inl e) \<longrightarrow>
      for_loop n pts s = Inl ValueError \<and> kmeans_trace n pts s = [])"
proof (cases "centroids s = [] \<or> pts = []")
  case True
  then have "loop_body pts s = Inl ValueError" by (rule loop_body_error)
  then show ?thesis using True by (cases n) auto
next
  case False
  then show ?thesis using for_loop_last [of s pts n] by simp
qed

theorem loop_fails_iff_witness:
  "(\<exists>e. for_loop 1 [] scenario_state = Inl e) \<and>
   for_loop 1 [] scenario_state = Inl ValueError \<and>
   kmeans_trace 1 [] scenario_state = [] \<and>
   \<not> (\<exists>e. for_loop 1 scenario_points scenario_state = Inl e)"
  using loop_fails_iff [of 1 "[]" scenario_state]
    loop_fails_iff [of 1 scenario_points scenario_state]
  by (simp add: scenario_points_def scenario_state_def)

text \<open>
  C5 as stated fails: two centroids for one point run without an error, and so does a
  loop of zero rounds.
\<close>

theorem configuration_error_counterexample:
  "length crowded_points < length (centroids crowded_state) \<and>
   for_loop 1 crowded_points crowded_state =
     Inr \<lparr>centroids = [(NaN, NaN), (Fin 1, Fin 1)], labels = [1]\<rparr> \<and>
   for_loop 0 crowded_points crowded_state = Inr crowded_state"
  by (simp add: eval_simps)

text \<open>
  C6. With a valid configuration the loop returns a state, and its history has at most
  \<open>n\<close> rounds.
\<close>

theorem run_terminates_within_N:
  assumes "valid_config n (centroids s) pts"
  shows "\<exists>s'. for_loop n pts s = Inr s' \<and> length (kmeans_trace n pts s) \<le> n"
proof -
  have "centroids s \<noteq> []" and "pts \<noteq> []"
    using assms by (auto simp: valid_config_def)
  then show ?thesis
    using for_loop_last [of s pts n] length_kmeans_trace_le [of n pts s] by simp
qed

theorem run_terminates_within_N_witness:
  "valid_config 20 (centroids scenario_state) scenario_points \<and>
   (\<exists>s'. for_loop 20 scenario_points scenario_state = Inr s' \<and>
         length (kmeans_trace 20 scenario_points scenario_state) \<le> 20)"
proof -
  have v: "valid_config 20 (centroids scenario_state) scenario_points"
    by (simp add: valid_config_def finite_centroid_def scenario_points_def scenario_state_def)
  show ?thesis using v run_terminates_within_N [OF v] by simp
qed

text \<open>
  C7. The results of the loop are a function of the points, the initial centroids and
  the number of rounds alone: two runs of at least one round that start from the same
  centroids, whatever labels an earlier cell left behind, have the same history of
  labels and centroids and the same final result.
\<close>

theorem run_deterministic:
  assumes "centroids s1 = centroids s2" and "0 < n"
  shows "kmeans_trace n pts s1 = kmeans_trace n pts s2 \<and> for_loop n pts s1 = for_loop n pts s2"
proof -
  obtain m where n: "n = Suc m" using assms(2) by (cases n) auto
  have "loop_body pts s1 = loop_body pts s2"
    using assms(1) by (simp add: loop_body_explicit)
  then show ?thesis by (simp add: n)
qed

theorem run_deterministic_witness:
  "centroids scenario_state = centroids (scenario_state\<lparr>labels := [3, 3, 3, 3]\<rparr>) \<and>
   scenario_state \<noteq> scenario_state\<lparr>labels := [3, 3, 3, 3]\<rparr> \<and>
   kmeans_trace 20 scenario_points scenario_state =
     kmeans_trace 20 scenario_points (scenario_state\<lparr>labels := [3, 3, 3, 3]\<rparr>) \<and>
   for_loop 20 scenario_points scenario_state =
     for_loop 20 scenario_points (scenario_state\<lparr>labels := [3, 3, 3, 3]\<rparr>)"
proof -
  have c: "centroids scenario_state = centroids (scenario_state\<lparr>labels := [3, 3, 3, 3]\<rparr>)"
    by simp
  have d: "scenario_state \<noteq> scenario_state\<lparr>labels := [3, 3, 3, 3]\<rparr>"
    by (simp add: scenario_state_def)
  have n: "(0::nat) < 20" by simp
  show ?thesis using c d run_deterministic [OF c n, of scenario_points] by blast
qed

text \<open>
  C8. The notebook says of the distortion that it gets smaller at every iteration, and
  the claim that it never increases from one round to the next. The loop breaks this
  when a cluster is left without points: its centroid becomes \<open>NaN\<close>, \<open>argmin\<close> then
  assigns every point to that centroid, and the distortion grows. Here the third
  centroid gets no point in the first round, and the distortion goes from 2 to 26.
\<close>

theorem distortion_increases_at_empty_cluster:
  "valid_config 2 (centroids three_state) three_points \<and>
   kmeans_trace 2 three_points three_state =
     [\<lparr>centroids = [(Fin 0, Fin 1), (Fin 6, Fin 1), (NaN, NaN)], labels = [0, 0, 1]\<rparr>,
      \<lparr>centroids = [(NaN, NaN), (NaN, NaN), (Fin 2, Fin 1)], labels = [2, 2, 2]\<rparr>] \<and>
   distortion three_points (kmeans_trace 2 three_points three_state ! 0) = Fin 2 \<and>
   distortion three_points (kmeans_trace 2 three_points three_state ! 1) = Fin 26 \<and>
   \<not> np_ge (distortion three_points (kmeans_trace 2 three_points three_state ! 0))
           (distortion three_points (kmeans_trace 2 three_points three_state ! 1))"
  by (simp add: valid_config_def finite_centroid_def eval_simps distortion_def)

text \<open>
  C9. In every state of the history every point has one label, every label is a
  centroid index, and there are as many centroids as at the start.
\<close>

theorem assignment_total:
  assumes "st \<in> set (kmeans_trace n pts s)"
  shows "length (labels st) = length pts \<and>
         (\<forall>l\<in>set (labels st). l < length (centroids s)) \<and>
         length (centroids st) = length (centroids s)"
proof -
  obtain s0 where s0: "loop_body pts s0 = Inr st"
    and K: "length (centroids s0) = length (centroids s)"
    using kmeans_trace_mem [OF assms] by blast
  show ?thesis
    using loop_body_length_labels [OF s0] loop_body_labels_less [OF s0]
      loop_body_length_centroids [OF s0] K by auto
qed

theorem assignment_total_witness:
  "kmeans_trace 2 scenario_points scenario_state ! 1
     \<in> set (kmeans_trace 2 scenario_points scenario_state) \<and>
   length (labels (kmeans_trace 2 scenario_points scenario_state ! 1)) = length scenario_points \<and>
   labels (kmeans_trace 2 scenario_points scenario_state ! 1) ! 3
     < length (centroids scenario_state) \<and>
   length (centroids (kmeans_trace 2 scenario_points scenario_state ! 1)) =
     length (centroids scenario_state)"
proof -
  have m: "kmeans_trace 2 scenario_points scenario_state ! 1
      \<in> set (kmeans_trace 2 scenario_points scenario_state)"
    by (simp add: eval_simps)
  have l: "labels (kmeans_trace 2 scenario_points scenario_state ! 1) ! 3
      \<in> set (labels (kmeans_trace 2 scenario_points scenario_state ! 1))"
    by (simp add: eval_simps)
  show ?thesis using m l assignment_total [OF m] by blast
qed

text \<open>
  C10. The body of the loop computes what cells 13, 15 and 18 compute one after the
  other: the same labels and the same new centroids, and the same exception.
\<close>

theorem loop_body_is_cells:
  "loop_body pts s =
     (case cell13 (centroids s) pts of
        Inl e \<Rightarrow> Inl e
      | Inr distances \<Rightarrow>
          (case cell15 distances of
             Inl e \<Rightarrow> Inl e
           | Inr ls \<Rightarrow> Inr (s\<lparr>labels := ls, centroids := cell18 (centroids s) pts ls\<rparr>)))"
  unfolding loop_body_def cell13_def cell15_def cell18_def by (rule refl)

end
